theory Spec2Isabelle
  imports
    Main
    "HOL-Library.Char_ord"
    "HOL-Library.List_Lexorder"
    "HOL-Library.Multiset"
begin

section \<open>The tutorial library of the learning hub (src/lib/tutorials.ts)\<close>

text \<open>
  The module organises the entries of the \<open>tutorials\<close> content collection: standalone
  tutorials, series, categories, tags, and the previous/next navigation inside a series.
  Every exported function starts with \<^verbatim>\<open>await getPublishedTutorials()\<close>, the read of
  the content collection; here the list it yields is the parameter \<open>tutorials'\<close> of each
  function, so that the functions are the pure computations that follow that call. A
  variable of the source whose name is also a field name carries a prime here.
\<close>

subsection \<open>Data model (src/content/config.ts and the interfaces of tutorials.ts)\<close>

datatype difficulty = beginner | intermediate | advanced

datatype status = draft | in_progress | complete

text \<open>
  The frontmatter of one entry, as typed by the schema: \<open>series\<close>, \<open>seriesOrder\<close>,
  \<open>dateUpdated\<close> and \<open>estimatedTime\<close> are optional (\<open>None\<close> is \<^verbatim>\<open>undefined\<close>), the
  other fields are always there. A date is its time value \<^verbatim>\<open>getTime()\<close>, the
  milliseconds since the epoch, an integer (the schema rejects an invalid date).
  \<open>seriesOrder\<close> is a number other than NaN, which the schema rejects; the model takes
  the integers, the positions in a series that the documentation means by it.
\<close>

record tutorial_data =
  title :: string
  description :: string
  category :: string
  tags :: "string list"
  difficulty :: difficulty
  status :: status
  series :: "string option"
  seriesOrder :: "int option"
  dateCreated :: int
  dateUpdated :: "int option"
  estimatedTime :: "string option"

record Tutorial =
  slug :: string
  data :: tutorial_data

record Series =
  slug :: string
  title :: string
  description :: string
  tutorials :: "Tutorial list"
  category :: string
  difficulty :: difficulty
  totalTime :: "string option"

record TutorialData =
  standalone :: "Tutorial list"
  series :: "Series list"
  categories :: "string list"
  tags :: "string list"

text \<open>The object \<open>getSeriesNavigation\<close> returns; \<open>None\<close> in \<open>prev\<close> and \<open>next\<close> is \<^verbatim>\<open>null\<close>.\<close>

record SeriesNavigation =
  series :: "Tutorial list"
  current :: int
  prev :: "Tutorial option"
  "next" :: "Tutorial option"

text \<open>
  The exceptions: the TypeError of reading a property (\<^verbatim>\<open>.data\<close>, \<^verbatim>\<open>.push\<close>) from
  \<^verbatim>\<open>undefined\<close>, the only one the statements of the module can raise themselves, and the
  error of the collection for a frontmatter that does not pass the schema.
\<close>

datatype error = TypeError | ValidationError

subsection \<open>The JavaScript operations the module uses\<close>

text \<open>
  Truthiness of an optional string (\<^verbatim>\<open>!t.data.series\<close>, \<^verbatim>\<open>filter(t => t.data.series)\<close>):
  \<^verbatim>\<open>undefined\<close> and the empty string are falsy.
\<close>

definition truthy_string :: "string option \<Rightarrow> bool" where
  "truthy_string s = (case s of None \<Rightarrow> False | Some v \<Rightarrow> v \<noteq> [])"

text \<open>\<^verbatim>\<open>d || e\<close> for an optional Date \<open>d\<close>: a Date object is always truthy.\<close>

definition date_or :: "int option \<Rightarrow> int \<Rightarrow> int" where
  "date_or d e = (case d of None \<Rightarrow> e | Some v \<Rightarrow> v)"

text \<open>\<^verbatim>\<open>n || e\<close> for an optional number \<open>n\<close>: \<^verbatim>\<open>undefined\<close> and 0 are falsy.\<close>

definition number_or :: "int option \<Rightarrow> int \<Rightarrow> int" where
  "number_or n e = (case n of None \<Rightarrow> e | Some v \<Rightarrow> if v = 0 then e else v)"

text \<open>
  \<^verbatim>\<open>Array.prototype.sort(compareFn)\<close>. The language requires the sort to be stable, and
  for a comparator that is consistent (as the ones of this module are: each is the
  difference of a numeric key) that fixes the result: the elements in comparator order,
  those that compare equal in their order before the call. Stable insertion computes it:
  \<open>x\<close>, which comes from further left, goes in front of the first \<open>y\<close> with
  \<open>compareFn x y \<le> 0\<close>.
\<close>

fun js_insert :: "('a \<Rightarrow> 'a \<Rightarrow> int) \<Rightarrow> 'a \<Rightarrow> 'a list \<Rightarrow> 'a list" where
  "js_insert compareFn x [] = [x]"
| "js_insert compareFn x (y # ys) =
     (if compareFn x y \<le> 0 then x # y # ys else y # js_insert compareFn x ys)"

definition js_sort :: "('a \<Rightarrow> 'a \<Rightarrow> int) \<Rightarrow> 'a list \<Rightarrow> 'a list" where
  "js_sort compareFn xs = foldr (js_insert compareFn) xs []"

text \<open>
  \<^verbatim>\<open>sort()\<close> without a comparator, on strings: the order of the code units, here the
  order of \<open>char\<close> extended to lists lexicographically.
\<close>

definition default_compare :: "string \<Rightarrow> string \<Rightarrow> int" where
  "default_compare x y = (if x < y then - 1 else if y < x then 1 else 0)"

text \<open>
  \<^verbatim>\<open>[...new Set(xs)]\<close>: the distinct values of \<open>xs\<close>, each at the place of its first
  occurrence (a Set iterates in insertion order).
\<close>

definition set_add :: "'a \<Rightarrow> 'a list \<Rightarrow> 'a list" where
  "set_add x s = (if x \<in> set s then s else s @ [x])"

definition new_Set :: "'a list \<Rightarrow> 'a list" where
  "new_Set xs = fold set_add xs []"

text \<open>\<^verbatim>\<open>findIndex\<close> and \<^verbatim>\<open>indexOf\<close>: the first position, or -1.\<close>

fun findIndex :: "('a \<Rightarrow> bool) \<Rightarrow> 'a list \<Rightarrow> int" where
  "findIndex P [] = - 1"
| "findIndex P (x # xs) =
     (if P x then 0 else (let i = findIndex P xs in if i < 0 then - 1 else i + 1))"

definition indexOf :: "'a list \<Rightarrow> 'a \<Rightarrow> int" where
  "indexOf xs v = findIndex (\<lambda>x. x = v) xs"

text \<open>\<^verbatim>\<open>xs[i]\<close>: reading outside the array gives \<^verbatim>\<open>undefined\<close>, here \<open>None\<close>.\<close>

definition js_at :: "'a list \<Rightarrow> int \<Rightarrow> 'a option" where
  "js_at xs i = (if 0 \<le> i \<and> i < int (length xs) then Some (xs ! nat i) else None)"

text \<open>
  A \<^verbatim>\<open>Map\<close> with string keys, as the list of its entries in insertion order, which is
  the order \<^verbatim>\<open>for ... of\<close> visits them in. \<open>map_set\<close> on a key that is there keeps the
  entry's place.
\<close>

type_synonym 'v js_map = "(string \<times> 'v) list"

definition map_has :: "'v js_map \<Rightarrow> string \<Rightarrow> bool" where
  "map_has m k = (k \<in> fst ` set m)"

fun map_get :: "'v js_map \<Rightarrow> string \<Rightarrow> 'v option" where
  "map_get [] k = None"
| "map_get ((k', v) # m) k = (if k' = k then Some v else map_get m k)"

fun map_set :: "'v js_map \<Rightarrow> string \<Rightarrow> 'v \<Rightarrow> 'v js_map" where
  "map_set [] k v = [(k, v)]"
| "map_set ((k', v') # m) k v = (if k' = k then (k, v) # m else (k', v') # map_set m k v)"

subsection \<open>getPublishedTutorials\<close>

text \<open>
  The entries of the collection, without the drafts in a production build
  (\<^verbatim>\<open>import.meta.env.PROD\<close>, here \<open>production\<close>); the collection is a parameter.
\<close>

definition getPublishedTutorials :: "bool \<Rightarrow> Tutorial list \<Rightarrow> Tutorial list" where
  "getPublishedTutorials production collection =
     filter (\<lambda>t. if production then tutorial_data.status (Tutorial.data t) \<noteq> draft else True)
       collection"

subsection \<open>getOrganizedTutorials\<close>

text \<open>The comparator of the standalone list: \<^verbatim>\<open>dateB.getTime() - dateA.getTime()\<close>.\<close>

definition compare_date :: "Tutorial \<Rightarrow> Tutorial \<Rightarrow> int" where
  "compare_date a b =
     (let dateA = date_or (tutorial_data.dateUpdated (Tutorial.data a))
                    (tutorial_data.dateCreated (Tutorial.data a));
          dateB = date_or (tutorial_data.dateUpdated (Tutorial.data b))
                    (tutorial_data.dateCreated (Tutorial.data b))
      in dateB - dateA)"

text \<open>
  The comparator of a series, written out twice in the source (in the organizer's loop
  and in \<open>getSeriesTutorials\<close>): \<^verbatim>\<open>(a.data.seriesOrder || 0) - (b.data.seriesOrder || 0)\<close>.
\<close>

definition compare_seriesOrder :: "Tutorial \<Rightarrow> Tutorial \<Rightarrow> int" where
  "compare_seriesOrder a b =
     number_or (tutorial_data.seriesOrder (Tutorial.data a)) 0
       - number_or (tutorial_data.seriesOrder (Tutorial.data b)) 0"

text \<open>
  The body of the \<^verbatim>\<open>forEach\<close> that fills \<open>seriesMap\<close>: a new key gets an empty array,
  then the tutorial is pushed onto the array of its key; \<^verbatim>\<open>seriesMap.get(seriesSlug)!.push(t)\<close>
  throws if the key has no array. The body runs on tutorials with a truthy \<open>series\<close>
  only; for the others the model leaves the map as it is.
\<close>

definition group_push :: "Tutorial \<Rightarrow> Tutorial list js_map \<Rightarrow> error + Tutorial list js_map" where
  "group_push t seriesMap =
     (case tutorial_data.series (Tutorial.data t) of
        None \<Rightarrow> Inr seriesMap
      | Some seriesSlug \<Rightarrow>
          (let m = (if \<not> map_has seriesMap seriesSlug then map_set seriesMap seriesSlug []
                    else seriesMap)
           in case map_get m seriesSlug of
                None \<Rightarrow> Inl TypeError
              | Some items \<Rightarrow> Inr (map_set m seriesSlug (items @ [t]))))"

fun group_loop :: "Tutorial list \<Rightarrow> Tutorial list js_map \<Rightarrow> error + Tutorial list js_map" where
  "group_loop [] seriesMap = Inr seriesMap"
| "group_loop (t # ts) seriesMap =
     (case group_push t seriesMap of
        Inl e \<Rightarrow> Inl e
      | Inr m \<Rightarrow> group_loop ts m)"

definition difficulties :: "difficulty list" where
  "difficulties = [beginner, intermediate, advanced]"

definition highestDifficulty :: "Tutorial list \<Rightarrow> difficulty" where
  "highestDifficulty items =
     foldl (\<lambda>max t.
              (let current = indexOf difficulties (tutorial_data.difficulty (Tutorial.data t));
                   maxIdx = indexOf difficulties max
               in if current > maxIdx then tutorial_data.difficulty (Tutorial.data t) else max))
           beginner items"

text \<open>
  One round of the loop over \<open>seriesMap\<close>: sort the group, pick the index entry, take
  the highest difficulty, build the Series. \<^verbatim>\<open>items[0]\<close> of an empty array is
  \<^verbatim>\<open>undefined\<close>, and \<^verbatim>\<open>index.data\<close> then throws.
\<close>

definition make_series :: "string \<Rightarrow> Tutorial list \<Rightarrow> error + Series" where
  "make_series slug' items0 =
     (let items = js_sort compare_seriesOrder items0;
          index =
            (case find (\<lambda>t. tutorial_data.seriesOrder (Tutorial.data t) = Some 0) items of
               Some t \<Rightarrow> Some t
             | None \<Rightarrow> js_at items 0)
      in case index of
           None \<Rightarrow> Inl TypeError
         | Some i \<Rightarrow>
             Inr \<lparr> Series.slug = slug',
                   Series.title = tutorial_data.title (Tutorial.data i),
                   Series.description = tutorial_data.description (Tutorial.data i),
                   Series.tutorials = items,
                   Series.category = tutorial_data.category (Tutorial.data i),
                   Series.difficulty = highestDifficulty items,
                   Series.totalTime = None \<rparr>)"

fun series_loop :: "Tutorial list js_map \<Rightarrow> Series list \<Rightarrow> error + Series list" where
  "series_loop [] series' = Inr series'"
| "series_loop ((slug', items) # rest) series' =
     (case make_series slug' items of
        Inl e \<Rightarrow> Inl e
      | Inr s \<Rightarrow> series_loop rest (series' @ [s]))"

definition getOrganizedTutorials :: "Tutorial list \<Rightarrow> error + TutorialData" where
  "getOrganizedTutorials tutorials' =
     (let standalone' =
            js_sort compare_date
              (filter (\<lambda>t. \<not> truthy_string (tutorial_data.series (Tutorial.data t)))
                 tutorials')
      in case group_loop
                (filter (\<lambda>t. truthy_string (tutorial_data.series (Tutorial.data t)))
                   tutorials') [] of
           Inl e \<Rightarrow> Inl e
         | Inr seriesMap \<Rightarrow>
             (case series_loop seriesMap [] of
                Inl e \<Rightarrow> Inl e
              | Inr series' \<Rightarrow>
                  Inr \<lparr> TutorialData.standalone = standalone',
                        TutorialData.series = series',
                        TutorialData.categories =
                          js_sort default_compare
                            (new_Set (map (\<lambda>t. tutorial_data.category (Tutorial.data t))
                                          tutorials')),
                        TutorialData.tags =
                          js_sort default_compare
                            (new_Set (concat (map (\<lambda>t. tutorial_data.tags (Tutorial.data t))
                                                  tutorials'))) \<rparr>))"

subsection \<open>getSeriesTutorials and getSeriesNavigation\<close>

definition getSeriesTutorials :: "string \<Rightarrow> Tutorial list \<Rightarrow> Tutorial list" where
  "getSeriesTutorials seriesSlug tutorials' =
     js_sort compare_seriesOrder
       (filter (\<lambda>t. tutorial_data.series (Tutorial.data t) = Some seriesSlug) tutorials')"

text \<open>
  The function has no statement that throws: both array reads give \<^verbatim>\<open>undefined\<close>
  outside the array, so its model is a total function; \<open>None\<close> is the \<^verbatim>\<open>null\<close> it
  returns for a tutorial without a series. In \<open>prev\<close> and \<open>next\<close> the model does not
  tell \<^verbatim>\<open>null\<close> from the \<^verbatim>\<open>undefined\<close> of a read outside the array; both reads are
  shown to stay inside it (\<open>navigation_reads_inside_array\<close>).
\<close>

definition getSeriesNavigation :: "Tutorial \<Rightarrow> Tutorial list \<Rightarrow> SeriesNavigation option" where
  "getSeriesNavigation tutorial tutorials' =
     (case tutorial_data.series (Tutorial.data tutorial) of
        None \<Rightarrow> None
      | Some seriesSlug \<Rightarrow>
          if seriesSlug = [] then None
          else
            (let seriesTutorials = getSeriesTutorials seriesSlug tutorials';
                 currentIndex =
                   findIndex (\<lambda>t. Tutorial.slug t = Tutorial.slug tutorial) seriesTutorials
             in Some \<lparr> SeriesNavigation.series = seriesTutorials,
                       SeriesNavigation.current = currentIndex,
                       SeriesNavigation.prev =
                         (if currentIndex > 0 then js_at seriesTutorials (currentIndex - 1)
                          else None),
                       SeriesNavigation.next =
                         (if currentIndex < int (length seriesTutorials) - 1
                          then js_at seriesTutorials (currentIndex + 1) else None) \<rparr>))"

section \<open>The collection behind getPublishedTutorials\<close>

text \<open>
  A tutorial file of the collection as the loader finds it: the slug, which the loader
  makes from the path of the file, so that no entry is without one, and the
  frontmatter, in which every key may be absent (\<open>None\<close>); a key that is there holds a value
  of the type the schema asks for.
\<close>

record frontmatter =
  title :: "string option"
  description :: "string option"
  category :: "string option"
  tags :: "string list option"
  difficulty :: "difficulty option"
  status :: "status option"
  series :: "string option"
  seriesOrder :: "int option"
  dateCreated :: "int option"
  dateUpdated :: "int option"
  estimatedTime :: "string option"

record tutorial_file =
  slug :: string
  frontmatter :: frontmatter

text \<open>
  The schema of the collection (src/content/config.ts), as the parse of a frontmatter:
  \<open>title\<close>, \<open>description\<close>, \<open>category\<close>, \<open>difficulty\<close>, \<open>status\<close> and \<open>dateCreated\<close> are
  required, and the parse fails without one of them; the fields declared
  \<^verbatim>\<open>.optional()\<close> may be absent and stay so; \<open>tags\<close> has the default \<^verbatim>\<open>[]\<close>.
\<close>

definition tutorials_schema :: "frontmatter \<Rightarrow> error + tutorial_data" where
  "tutorials_schema fm =
     (case frontmatter.title fm of
        None \<Rightarrow> Inl ValidationError
      | Some title' \<Rightarrow>
     (case frontmatter.description fm of
        None \<Rightarrow> Inl ValidationError
      | Some description' \<Rightarrow>
     (case frontmatter.category fm of
        None \<Rightarrow> Inl ValidationError
      | Some category' \<Rightarrow>
     (case frontmatter.difficulty fm of
        None \<Rightarrow> Inl ValidationError
      | Some difficulty' \<Rightarrow>
     (case frontmatter.status fm of
        None \<Rightarrow> Inl ValidationError
      | Some status' \<Rightarrow>
     (case frontmatter.dateCreated fm of
        None \<Rightarrow> Inl ValidationError
      | Some dateCreated' \<Rightarrow>
          Inr \<lparr> tutorial_data.title = title',
                tutorial_data.description = description',
                tutorial_data.category = category',
                tutorial_data.tags =
                  (case frontmatter.tags fm of None \<Rightarrow> [] | Some tags' \<Rightarrow> tags'),
                tutorial_data.difficulty = difficulty',
                tutorial_data.status = status',
                tutorial_data.series = frontmatter.series fm,
                tutorial_data.seriesOrder = frontmatter.seriesOrder fm,
                tutorial_data.dateCreated = dateCreated',
                tutorial_data.dateUpdated = frontmatter.dateUpdated fm,
                tutorial_data.estimatedTime = frontmatter.estimatedTime fm \<rparr>))))))"

text \<open>
  Modelled from the spec: \<^verbatim>\<open>getCollection\<close> of \<^verbatim>\<open>astro:content\<close>, which the module imports
  and the repository does not contain. The specification has this loader validate the
  frontmatter of every record against the schema and hand on validated records only; a
  record that lacks a required field is rejected with a ValidationError, before any
  grouping runs. \<open>load_files\<close> is that validation, file by file; the second argument of
  \<open>getCollection\<close> is the filter callback, which sees the validated \<open>data\<close> of an entry.
\<close>

fun load_files :: "tutorial_file list \<Rightarrow> error + Tutorial list" where
  "load_files [] = Inr []"
| "load_files (f # fs) =
     (case tutorials_schema (tutorial_file.frontmatter f) of
        Inl e \<Rightarrow> Inl e
      | Inr d \<Rightarrow>
          (case load_files fs of
             Inl e \<Rightarrow> Inl e
           | Inr entries \<Rightarrow>
               Inr (\<lparr> Tutorial.slug = tutorial_file.slug f, Tutorial.data = d \<rparr> # entries)))"

definition getCollection ::
  "tutorial_file list \<Rightarrow> (tutorial_data \<Rightarrow> bool) \<Rightarrow> error + Tutorial list" where
  "getCollection files callback =
     (case load_files files of
        Inl e \<Rightarrow> Inl e
      | Inr entries \<Rightarrow> Inr (filter (\<lambda>t. callback (Tutorial.data t)) entries))"

text \<open>
  The exported functions as they stand in the module, with the read of the collection
  that each begins with: an exception of the awaited call ends the function.
\<close>

definition getPublishedTutorials_of_files :: "bool \<Rightarrow> tutorial_file list \<Rightarrow> error + Tutorial list" where
  "getPublishedTutorials_of_files production files =
     getCollection files
       (\<lambda>data'. if production then tutorial_data.status data' \<noteq> draft else True)"


section \<open>The notions of the specification\<close>

text \<open>
  What the specification of the organizer and the navigator speaks of, each written from
  its words there, to state the properties of the functions above with.
\<close>

text \<open>A tutorial belongs to a series when its \<open>series\<close> field is neither absent nor empty.\<close>

definition has_series :: "Tutorial \<Rightarrow> bool" where
  "has_series t =
     (tutorial_data.series (Tutorial.data t) \<noteq> None
      \<and> tutorial_data.series (Tutorial.data t) \<noteq> Some [])"

text \<open>The effective date: \<open>dateUpdated\<close> if present, else \<open>dateCreated\<close>.\<close>

definition effective_date :: "Tutorial \<Rightarrow> int" where
  "effective_date t =
     (case tutorial_data.dateUpdated (Tutorial.data t) of
        Some d \<Rightarrow> d
      | None \<Rightarrow> tutorial_data.dateCreated (Tutorial.data t))"

text \<open>The effective order in a series: a missing \<open>seriesOrder\<close> counts as 0.\<close>

definition effective_order :: "Tutorial \<Rightarrow> int" where
  "effective_order t =
     (case tutorial_data.seriesOrder (Tutorial.data t) of None \<Rightarrow> 0 | Some n \<Rightarrow> n)"

text \<open>
  The distinct values of a list in the order in which each is first met: the head, then
  the first-met order of the rest without the head.
\<close>

fun first_seen :: "'a list \<Rightarrow> 'a list" where
  "first_seen [] = []"
| "first_seen (x # xs) = x # removeAll x (first_seen xs)"

text \<open>The series of a tutorial list, in first-met order, and the members of one series.\<close>

definition series_names :: "Tutorial list \<Rightarrow> string list" where
  "series_names ts =
     first_seen
       (filter (\<lambda>s. s \<noteq> [])
          (List.map_filter (\<lambda>t. tutorial_data.series (Tutorial.data t)) ts))"

definition series_members :: "string \<Rightarrow> Tutorial list \<Rightarrow> Tutorial list" where
  "series_members k ts = filter (\<lambda>t. tutorial_data.series (Tutorial.data t) = Some k) ts"

text \<open>
  The index tutorial of a sorted group: its first member whose \<open>seriesOrder\<close> is exactly
  0, and the first member when there is none.
\<close>

definition index_tutorial :: "Tutorial list \<Rightarrow> Tutorial" where
  "index_tutorial items =
     (case find (\<lambda>t. tutorial_data.seriesOrder (Tutorial.data t) = Some 0) items of
        Some t \<Rightarrow> t
      | None \<Rightarrow> hd items)"

text \<open>The ordering of the difficulties: beginner = 0, intermediate = 1, advanced = 2.\<close>

fun difficulty_rank :: "difficulty \<Rightarrow> nat" where
  "difficulty_rank beginner = 0"
| "difficulty_rank intermediate = 1"
| "difficulty_rank advanced = 2"

definition max_difficulty :: "difficulty \<Rightarrow> difficulty \<Rightarrow> difficulty" where
  "max_difficulty a b = (if difficulty_rank a < difficulty_rank b then b else a)"



section \<open>Example content\<close>

text \<open>
  Entries of the repository's content collection (the SDL3 and Docker tutorials, and the
  three parts of the \<open>rust-basics\<close> series of the project outline), in an order in
  which the collection may yield them. A date is the time value of its midnight (UTC).
\<close>

definition sdl3_intro :: Tutorial where
  "sdl3_intro =
     \<lparr> Tutorial.slug = ''sdl3-intro'',
       Tutorial.data =
         \<lparr> tutorial_data.title = ''Introduction to SDL3 Development in C'',
           tutorial_data.description = ''Learn the fundamentals of SDL3'',
           tutorial_data.category = ''programming'',
           tutorial_data.tags = [''c'', ''sdl3'', ''gamedev'', ''graphics''],
           tutorial_data.difficulty = beginner,
           tutorial_data.status = complete,
           tutorial_data.series = None,
           tutorial_data.seriesOrder = None,
           tutorial_data.dateCreated = 1738281600000,
           tutorial_data.dateUpdated = None,
           tutorial_data.estimatedTime = Some ''45 min'' \<rparr> \<rparr>"

definition docker_basics :: Tutorial where
  "docker_basics =
     \<lparr> Tutorial.slug = ''docker-basics'',
       Tutorial.data =
         \<lparr> tutorial_data.title = ''Docker Basics for Developers'',
           tutorial_data.description = ''Get started with Docker containers'',
           tutorial_data.category = ''devops'',
           tutorial_data.tags = [''docker'', ''containers'', ''development''],
           tutorial_data.difficulty = beginner,
           tutorial_data.status = complete,
           tutorial_data.series = None,
           tutorial_data.seriesOrder = None,
           tutorial_data.dateCreated = 1736899200000,
           tutorial_data.dateUpdated = None,
           tutorial_data.estimatedTime = Some ''20 min'' \<rparr> \<rparr>"

definition rust_index :: Tutorial where
  "rust_index =
     \<lparr> Tutorial.slug = ''rust-basics'',
       Tutorial.data =
         \<lparr> tutorial_data.title = ''Rust Programming Basics'',
           tutorial_data.description = ''Learn Rust from the ground up'',
           tutorial_data.category = ''programming'',
           tutorial_data.tags = [''rust'', ''systems'', ''memory''],
           tutorial_data.difficulty = beginner,
           tutorial_data.status = complete,
           tutorial_data.series = Some ''rust-basics'',
           tutorial_data.seriesOrder = Some 0,
           tutorial_data.dateCreated = 1736467200000,
           tutorial_data.dateUpdated = None,
           tutorial_data.estimatedTime = Some ''5 min'' \<rparr> \<rparr>"

definition rust_installation :: Tutorial where
  "rust_installation =
     \<lparr> Tutorial.slug = ''rust-basics/01-installation'',
       Tutorial.data =
         \<lparr> tutorial_data.title = ''Installing Rust'',
           tutorial_data.description = ''Set up your Rust development environment'',
           tutorial_data.category = ''programming'',
           tutorial_data.tags = [''rust'', ''setup''],
           tutorial_data.difficulty = beginner,
           tutorial_data.status = complete,
           tutorial_data.series = Some ''rust-basics'',
           tutorial_data.seriesOrder = Some 1,
           tutorial_data.dateCreated = 1736467200000,
           tutorial_data.dateUpdated = None,
           tutorial_data.estimatedTime = Some ''10 min'' \<rparr> \<rparr>"

definition rust_ownership :: Tutorial where
  "rust_ownership =
     \<lparr> Tutorial.slug = ''rust-basics/02-ownership'',
       Tutorial.data =
         \<lparr> tutorial_data.title = ''Understanding Ownership'',
           tutorial_data.description = ''Master the ownership system of Rust'',
           tutorial_data.category = ''programming'',
           tutorial_data.tags = [''rust'', ''memory'', ''ownership''],
           tutorial_data.difficulty = intermediate,
           tutorial_data.status = complete,
           tutorial_data.series = Some ''rust-basics'',
           tutorial_data.seriesOrder = Some 2,
           tutorial_data.dateCreated = 1736640000000,
           tutorial_data.dateUpdated = None,
           tutorial_data.estimatedTime = Some ''25 min'' \<rparr> \<rparr>"

definition example_tutorials :: "Tutorial list" where
  "example_tutorials = [docker_basics, rust_ownership, sdl3_intro, rust_index, rust_installation]"

text \<open>
  A fourth part of the series, still a draft: a production build leaves it out of the
  published list, while its page is still generated and asks for its navigation.
\<close>

definition rust_error_handling :: Tutorial where
  "rust_error_handling =
     \<lparr> Tutorial.slug = ''rust-basics/03-error-handling'',
       Tutorial.data =
         \<lparr> tutorial_data.title = ''Error Handling'',
           tutorial_data.description = ''How Rust handles errors without exceptions'',
           tutorial_data.category = ''programming'',
           tutorial_data.tags = [''rust'', ''errors''],
           tutorial_data.difficulty = intermediate,
           tutorial_data.status = draft,
           tutorial_data.series = Some ''rust-basics'',
           tutorial_data.seriesOrder = Some 3,
           tutorial_data.dateCreated = 1736640000000,
           tutorial_data.dateUpdated = None,
           tutorial_data.estimatedTime = None \<rparr> \<rparr>"

text \<open>
  The file of the Docker tutorial, whose frontmatter has neither \<open>series\<close> nor
  \<open>seriesOrder\<close> nor \<open>dateUpdated\<close>, and the same file with the \<open>category\<close> line taken
  out.
\<close>

definition docker_basics_file :: tutorial_file where
  "docker_basics_file =
     \<lparr> tutorial_file.slug = ''docker-basics'',
       tutorial_file.frontmatter =
         \<lparr> frontmatter.title = Some ''Docker Basics for Developers'',
           frontmatter.description = Some ''Get started with Docker containers'',
           frontmatter.category = Some ''devops'',
           frontmatter.tags = Some [''docker'', ''containers'', ''development''],
           frontmatter.difficulty = Some beginner,
           frontmatter.status = Some complete,
           frontmatter.series = None,
           frontmatter.seriesOrder = None,
           frontmatter.dateCreated = Some 1736899200000,
           frontmatter.dateUpdated = None,
           frontmatter.estimatedTime = Some ''20 min'' \<rparr> \<rparr>"


section \<open>The organizer in closed form\<close>

text \<open>
  The map the grouping loop builds, and the Series one round of the second loop builds
  from a group that is not empty: the two loops are shown to compute these.
\<close>

definition groups :: "Tutorial list \<Rightarrow> Tutorial list js_map" where
  "groups xs =
     map (\<lambda>k. (k, series_members k xs))
       (first_seen (List.map_filter (\<lambda>t. tutorial_data.series (Tutorial.data t)) xs))"

definition series_of :: "string \<Rightarrow> Tutorial list \<Rightarrow> Series" where
  "series_of k items0 =
     (let items = sort_key effective_order items0; i = index_tutorial items
      in \<lparr> Series.slug = k,
           Series.title = tutorial_data.title (Tutorial.data i),
           Series.description = tutorial_data.description (Tutorial.data i),
           Series.tutorials = items,
           Series.category = tutorial_data.category (Tutorial.data i),
           Series.difficulty = highestDifficulty items,
           Series.totalTime = None \<rparr>)"

subsection \<open>Sorting\<close>

lemma js_insert_insort_key:
  assumes "\<And>x y. (cmp x y \<le> 0) = (f x \<le> f y)"
  shows "js_insert cmp x ys = insort_key f x ys"
  by (induction ys) (simp_all add: assms)

lemma js_sort_sort_key:
  assumes "\<And>x y. (cmp x y \<le> 0) = (f x \<le> f y)"
  shows "js_sort cmp xs = sort_key f xs"
proof -
  have "js_insert cmp = insort_key f"
    by (intro ext) (rule js_insert_insort_key [OF assms])
  then show ?thesis
    by (simp add: js_sort_def sort_key_def)
qed

lemma compare_seriesOrder_le: "(compare_seriesOrder a b \<le> 0) = (effective_order a \<le> effective_order b)"
  by (simp add: compare_seriesOrder_def number_or_def effective_order_def split: option.splits)

lemma compare_date_le: "(compare_date a b \<le> 0) = (- effective_date a \<le> - effective_date b)"
  by (simp add: compare_date_def date_or_def effective_date_def Let_def split: option.splits)

lemma default_compare_le: "(default_compare x y \<le> 0) = (x \<le> y)"
  by (auto simp: default_compare_def)

lemma sort_seriesOrder: "js_sort compare_seriesOrder xs = sort_key effective_order xs"
  by (rule js_sort_sort_key) (rule compare_seriesOrder_le)

lemma sort_date: "js_sort compare_date xs = sort_key (\<lambda>t. - effective_date t) xs"
  by (rule js_sort_sort_key) (rule compare_date_le)

lemma sort_default: "js_sort default_compare xs = sort xs"
  by (rule js_sort_sort_key) (simp add: default_compare_le)

lemma filter_removeAll: "filter P (removeAll x ys) = filter (\<lambda>y. P y \<and> y \<noteq> x) ys"
  by (induction ys) auto

lemma fold_set_add:
  "fold set_add xs acc = acc @ filter (\<lambda>y. y \<notin> set acc) (first_seen xs)"
proof (induction xs arbitrary: acc)
  case Nil
  then show ?case by simp
next
  case (Cons x xs)
  show ?case
  proof (cases "x \<in> set acc")
    case True
    then have "set_add x acc = acc"
      by (simp add: set_add_def)
    then have "fold set_add (x # xs) acc = acc @ filter (\<lambda>y. y \<notin> set acc) (first_seen xs)"
      by (simp add: Cons.IH)
    moreover have "(\<lambda>y. y \<notin> set acc \<and> y \<noteq> x) = (\<lambda>y. y \<notin> set acc)"
      using True by auto
    ultimately show ?thesis
      using True by (simp add: filter_removeAll)
  next
    case False
    then have "set_add x acc = acc @ [x]"
      by (simp add: set_add_def)
    then have "fold set_add (x # xs) acc =
        (acc @ [x]) @ filter (\<lambda>y. y \<notin> set (acc @ [x])) (first_seen xs)"
      by (simp add: Cons.IH)
    moreover have "(\<lambda>y. y \<notin> set acc \<and> y \<noteq> x) = (\<lambda>y. y \<noteq> x \<and> y \<notin> set acc)"
      by auto
    ultimately show ?thesis
      using False by (simp add: filter_removeAll)
  qed
qed

lemma new_Set_first_seen: "new_Set xs = first_seen xs"
  by (simp add: new_Set_def fold_set_add)

lemma set_first_seen [simp]: "set (first_seen xs) = set xs"
  by (induction xs) auto

lemma distinct_first_seen [simp]: "distinct (first_seen xs)"
  by (induction xs) (auto simp: distinct_removeAll)

lemma first_seen_snoc:
  "first_seen (xs @ [x]) = (if x \<in> set xs then first_seen xs else first_seen xs @ [x])"
proof -
  have "first_seen (xs @ [x]) = set_add x (first_seen xs)"
    by (simp add: new_Set_first_seen [symmetric] new_Set_def)
  then show ?thesis by (simp add: set_add_def)
qed

lemma first_seen_remdups: "first_seen xs = rev (remdups (rev xs))"
  by (induction xs rule: rev_induct) (simp_all add: first_seen_snoc)

lemma map_get_keyed:
  "map_get (map (\<lambda>k. (k, g k)) ks) k = (if k \<in> set ks then Some (g k) else None)"
  by (induction ks) auto

lemma map_has_keyed: "map_has (map (\<lambda>k. (k, g k)) ks) k = (k \<in> set ks)"
  by (auto simp: map_has_def image_iff)

lemma map_set_keyed_new:
  "k \<notin> set ks \<Longrightarrow> map_set (map (\<lambda>k. (k, g k)) ks) k v = map (\<lambda>k. (k, g k)) ks @ [(k, v)]"
  by (induction ks) auto

lemma map_set_keyed_old:
  "distinct ks \<Longrightarrow> k \<in> set ks \<Longrightarrow>
   map_set (map (\<lambda>k'. (k', g k')) ks) k v = map (\<lambda>k'. (k', if k' = k then v else g k')) ks"
  by (induction ks) auto

lemma map_filter_snoc:
  "List.map_filter f (xs @ [x]) =
     List.map_filter f xs @ (case f x of None \<Rightarrow> [] | Some y \<Rightarrow> [y])"
  by (simp add: List.map_filter_def split: option.splits)

lemma set_map_filter_series:
  "(k \<in> set (List.map_filter (\<lambda>t. tutorial_data.series (Tutorial.data t)) xs)) = (series_members k xs \<noteq> [])"
  by (induction xs) (auto simp: List.map_filter_simps series_members_def split: option.splits)

lemma group_push_groups: "group_push t (groups xs) = Inr (groups (xs @ [t]))"
proof (cases "tutorial_data.series (Tutorial.data t)")
  case None
  then show ?thesis
    by (simp add: group_push_def groups_def map_filter_snoc series_members_def)
next
  case (Some k)
  define ks where "ks = first_seen (List.map_filter (\<lambda>t. tutorial_data.series (Tutorial.data t)) xs)"
  define ks' where "ks' = first_seen (List.map_filter (\<lambda>t. tutorial_data.series (Tutorial.data t)) (xs @ [t]))"
  have ks': "ks' = (if k \<in> set ks then ks else ks @ [k])"
    by (simp add: ks'_def ks_def map_filter_snoc Some first_seen_snoc)
  have dist: "distinct ks'" and mem: "k \<in> set ks'"
    by (simp_all add: ks'_def map_filter_snoc Some)
  have empty: "k \<notin> set ks \<Longrightarrow> series_members k xs = []"
    using set_map_filter_series [of k xs] by (simp add: ks_def)
  have m: "(if \<not> map_has (groups xs) k then map_set (groups xs) k [] else groups xs)
      = map (\<lambda>k'. (k', series_members k' xs)) ks'"
    using empty
    by (simp add: groups_def ks_def [symmetric] map_has_keyed map_set_keyed_new ks')
  have step: "\<And>k'. (if k' = k then series_members k xs @ [t] else series_members k' xs)
      = series_members k' (xs @ [t])"
    by (simp add: series_members_def Some)
  have "group_push t (groups xs)
      = Inr (map_set (map (\<lambda>k'. (k', series_members k' xs)) ks') k (series_members k xs @ [t]))"
    unfolding group_push_def Some option.case Let_def m
    by (simp add: map_get_keyed mem)
  also have "\<dots> = Inr (map (\<lambda>k'. (k', series_members k' (xs @ [t]))) ks')"
    by (simp add: map_set_keyed_old [OF dist mem] step)
  finally show ?thesis
    by (simp add: groups_def ks'_def)
qed

lemma group_loop_snoc:
  "group_loop (xs @ [t]) m = (case group_loop xs m of Inl e \<Rightarrow> Inl e | Inr m' \<Rightarrow> group_push t m')"
  by (induction xs arbitrary: m) (simp_all split: sum.splits)

lemma group_loop_groups: "group_loop xs [] = Inr (groups xs)"
proof (induction xs rule: rev_induct)
  case Nil
  then show ?case by (simp add: groups_def List.map_filter_def)
next
  case (snoc t xs)
  then show ?case by (simp add: group_loop_snoc group_push_groups)
qed

lemma groups_filter_truthy:
  "groups (filter (\<lambda>t. truthy_string (tutorial_data.series (Tutorial.data t))) ts)
     = map (\<lambda>k. (k, series_members k ts)) (series_names ts)"
proof -
  let ?ws = "filter (\<lambda>t. truthy_string (tutorial_data.series (Tutorial.data t))) ts"
  have keys: "List.map_filter (\<lambda>t. tutorial_data.series (Tutorial.data t)) ?ws
      = filter (\<lambda>s. s \<noteq> []) (List.map_filter (\<lambda>t. tutorial_data.series (Tutorial.data t)) ts)"
    by (induction ts) (auto simp: List.map_filter_def truthy_string_def split: option.splits)
  have "series_members k ?ws = series_members k ts" if "k \<in> set (series_names ts)" for k
  proof -
    from that have "k \<noteq> []" by (simp add: series_names_def)
    then show ?thesis
      by (induction ts) (auto simp: series_members_def truthy_string_def)
  qed
  then show ?thesis
    by (simp add: groups_def keys series_names_def [symmetric])
qed

lemma series_members_nonempty:
  "k \<in> set (series_names ts) \<Longrightarrow> series_members k ts \<noteq> []"
  using set_map_filter_series [of k ts] by (simp add: series_names_def)

lemma make_series_nonempty:
  assumes "items0 \<noteq> []"
  shows "make_series k items0 = Inr (series_of k items0)"
proof -
  let ?items = "sort_key effective_order items0"
  have ne: "?items \<noteq> []"
    using assms by (metis length_sort length_0_conv)
  with assms have "js_at ?items 0 = Some (hd ?items)"
    by (simp add: js_at_def hd_conv_nth)
  then show ?thesis
    by (simp add: make_series_def series_of_def sort_seriesOrder index_tutorial_def Let_def
        split: option.splits)
qed

lemma make_series_empty: "make_series k [] = Inl TypeError"
  by (simp add: make_series_def js_sort_def js_at_def)

lemma series_loop_closed:
  "\<forall>(k, items) \<in> set m. items \<noteq> [] \<Longrightarrow>
   series_loop m acc = Inr (acc @ map (\<lambda>(k, items). series_of k items) m)"
  by (induction m acc rule: series_loop.induct) (simp_all add: make_series_nonempty)

lemma truthy_has_series: "truthy_string (tutorial_data.series (Tutorial.data t)) = has_series t"
  by (simp add: truthy_string_def has_series_def split: option.splits)

lemma indexOf_difficulties: "indexOf difficulties d = int (difficulty_rank d)"
  by (cases d) (simp_all add: indexOf_def difficulties_def)

lemma highestDifficulty_fold:
  "highestDifficulty items =
     foldl max_difficulty beginner (map (\<lambda>t. tutorial_data.difficulty (Tutorial.data t)) items)"
proof -
  have "foldl (\<lambda>max t.
              (let current = indexOf difficulties (tutorial_data.difficulty (Tutorial.data t));
                   maxIdx = indexOf difficulties max
               in if current > maxIdx then tutorial_data.difficulty (Tutorial.data t) else max)) a items
      = foldl max_difficulty a (map (\<lambda>t. tutorial_data.difficulty (Tutorial.data t)) items)" for a
    by (induction items arbitrary: a) (simp_all add: indexOf_difficulties max_difficulty_def)
  then show ?thesis
    by (simp add: highestDifficulty_def)
qed

lemma foldl_max_ge_init: "difficulty_rank a \<le> difficulty_rank (foldl max_difficulty a ds)"
proof (induction ds arbitrary: a)
  case Nil
  then show ?case by simp
next
  case (Cons d ds)
  have "difficulty_rank a \<le> difficulty_rank (max_difficulty a d)"
    by (simp add: max_difficulty_def)
  also have "\<dots> \<le> difficulty_rank (foldl max_difficulty (max_difficulty a d) ds)"
    by (rule Cons.IH)
  finally show ?case by simp
qed

lemma foldl_max_ge:
  "d \<in> set ds \<Longrightarrow> difficulty_rank d \<le> difficulty_rank (foldl max_difficulty a ds)"
proof (induction ds arbitrary: a)
  case Nil
  then show ?case by simp
next
  case (Cons e ds)
  show ?case
  proof (cases "d = e")
    case True
    have "difficulty_rank e \<le> difficulty_rank (max_difficulty a e)"
      by (simp add: max_difficulty_def)
    also have "\<dots> \<le> difficulty_rank (foldl max_difficulty (max_difficulty a e) ds)"
      by (rule foldl_max_ge_init)
    finally show ?thesis using True by simp
  next
    case False
    with Cons.prems have "d \<in> set ds" by simp
    then show ?thesis by (simp add: Cons.IH)
  qed
qed

lemma foldl_max_attained:
  "foldl max_difficulty a ds = a \<or> foldl max_difficulty a ds \<in> set ds"
proof (induction ds arbitrary: a)
  case Nil
  then show ?case by simp
next
  case (Cons d ds)
  from Cons.IH [of "max_difficulty a d"] show ?case
    by (auto simp: max_difficulty_def split: if_splits)
qed

lemma getOrganizedTutorials_closed:
  "getOrganizedTutorials ts =
     Inr \<lparr> TutorialData.standalone =
             sort_key (\<lambda>t. - effective_date t) (filter (\<lambda>t. \<not> has_series t) ts),
           TutorialData.series =
             map (\<lambda>k. series_of k (series_members k ts)) (series_names ts),
           TutorialData.categories =
             sort (first_seen (map (\<lambda>t. tutorial_data.category (Tutorial.data t)) ts)),
           TutorialData.tags =
             sort (first_seen (concat (map (\<lambda>t. tutorial_data.tags (Tutorial.data t)) ts))) \<rparr>"
proof -
  have loop: "series_loop (map (\<lambda>k. (k, series_members k ts)) (series_names ts)) []
      = Inr (map (\<lambda>k. series_of k (series_members k ts)) (series_names ts))"
    by (subst series_loop_closed) (auto simp: series_members_nonempty comp_def)
  show ?thesis
    unfolding getOrganizedTutorials_def Let_def truthy_has_series
    by (simp add: group_loop_groups groups_filter_truthy [unfolded truthy_has_series] loop
        sort_date sort_default new_Set_first_seen)
qed

lemma set_series_names:
  "set (series_names ts) =
     {s. s \<noteq> [] \<and> (\<exists>t\<in>set ts. tutorial_data.series (Tutorial.data t) = Some s)}"
  by (auto simp: series_names_def set_map_filter_series series_members_def filter_empty_conv)

lemma distinct_series_names: "distinct (series_names ts)"
  by (simp add: series_names_def)

lemma has_series_iff:
  "has_series t = (\<exists>s. s \<noteq> [] \<and> tutorial_data.series (Tutorial.data t) = Some s)"
  by (cases "tutorial_data.series (Tutorial.data t)") (auto simp: has_series_def)

lemma mset_members_split:
  "k \<notin> set ks \<Longrightarrow>
   mset (series_members k ts)
     + mset (filter (\<lambda>t. tutorial_data.series (Tutorial.data t) \<in> Some ` set ks) ts)
   = mset (filter (\<lambda>t. tutorial_data.series (Tutorial.data t) \<in> Some ` set (k # ks)) ts)"
  by (induction ts) (auto simp: series_members_def)

lemma mset_concat_members:
  "distinct ks \<Longrightarrow>
   mset (concat (map (\<lambda>k. sort_key f (series_members k ts)) ks))
   = mset (filter (\<lambda>t. tutorial_data.series (Tutorial.data t) \<in> Some ` set ks) ts)"
proof (induction ks)
  case Nil
  then show ?case by simp
next
  case (Cons k ks)
  then have "mset (concat (map (\<lambda>k. sort_key f (series_members k ts)) (k # ks)))
      = mset (series_members k ts)
        + mset (filter (\<lambda>t. tutorial_data.series (Tutorial.data t) \<in> Some ` set ks) ts)"
    by simp
  also have "\<dots> = mset (filter (\<lambda>t. tutorial_data.series (Tutorial.data t) \<in> Some ` set (k # ks)) ts)"
    using Cons.prems by (intro mset_members_split) simp
  finally show ?case .
qed

lemma filter_in_series_names:
  "filter (\<lambda>t. tutorial_data.series (Tutorial.data t) \<in> Some ` set (series_names ts)) ts
   = filter has_series ts"
  by (rule filter_cong) (auto simp: set_series_names has_series_iff)

lemma series_of_simps:
  "Series.slug (series_of k items) = k"
  "Series.tutorials (series_of k items) = sort_key effective_order items"
  "Series.title (series_of k items)
     = tutorial_data.title (Tutorial.data (index_tutorial (sort_key effective_order items)))"
  "Series.description (series_of k items)
     = tutorial_data.description (Tutorial.data (index_tutorial (sort_key effective_order items)))"
  "Series.category (series_of k items)
     = tutorial_data.category (Tutorial.data (index_tutorial (sort_key effective_order items)))"
  "Series.difficulty (series_of k items) = highestDifficulty (sort_key effective_order items)"
  by (simp_all add: series_of_def Let_def)

section \<open>Properties of the organizer\<close>

lemma organized_series_member:
  assumes "getOrganizedTutorials ts = Inr r" and "S \<in> set (TutorialData.series r)"
  shows "Series.slug S \<in> set (series_names ts)
       \<and> S = series_of (Series.slug S) (series_members (Series.slug S) ts)"
  using assms by (auto simp: getOrganizedTutorials_closed series_of_simps)

lemma index_tutorial_member: "items \<noteq> [] \<Longrightarrow> index_tutorial items \<in> set items"
  by (auto simp: index_tutorial_def find_Some_iff split: option.splits)

lemma sort_key_nonempty: "xs \<noteq> [] \<Longrightarrow> sort_key f xs \<noteq> []"
  by (metis length_sort length_0_conv)

subsection \<open>The organizer on the example content\<close>

lemma example_organized:
  "getOrganizedTutorials example_tutorials =
     Inr \<lparr> TutorialData.standalone = [sdl3_intro, docker_basics],
           TutorialData.series =
             [\<lparr> Series.slug = ''rust-basics'',
                Series.title = ''Rust Programming Basics'',
                Series.description = ''Learn Rust from the ground up'',
                Series.tutorials = [rust_index, rust_installation, rust_ownership],
                Series.category = ''programming'',
                Series.difficulty = intermediate,
                Series.totalTime = None \<rparr>],
           TutorialData.categories = [''devops'', ''programming''],
           TutorialData.tags =
             [''c'', ''containers'', ''development'', ''docker'', ''gamedev'', ''graphics'',
              ''memory'', ''ownership'', ''rust'', ''sdl3'', ''setup'', ''systems''] \<rparr>"
  by code_simp

lemma example_series:
  assumes "getOrganizedTutorials example_tutorials = Inr r"
  shows "TutorialData.series r =
     [\<lparr> Series.slug = ''rust-basics'',
        Series.title = ''Rust Programming Basics'',
        Series.description = ''Learn Rust from the ground up'',
        Series.tutorials = [rust_index, rust_installation, rust_ownership],
        Series.category = ''programming'',
        Series.difficulty = intermediate,
        Series.totalTime = None \<rparr>]"
  using assms unfolding example_organized by auto

subsection \<open>Series, standalone list, categories and tags\<close>

text \<open>
  C1. For every tutorial list the organizer returns a result; its \<open>standalone\<close> list holds
  exactly the input tutorials without a series (no \<open>series\<close> field, or an empty one), and
  the \<open>tutorials\<close> lists of its Series, one after the other, hold exactly the input
  tutorials with a series, each as often as the input does: the two are permutations of
  the two halves of the input, and no tutorial is lost or doubled.
\<close>

theorem organize_partitions_input:
  "\<exists>r. getOrganizedTutorials ts = Inr r
     \<and> mset (TutorialData.standalone r) = mset (filter (\<lambda>t. \<not> has_series t) ts)
     \<and> mset (concat (map Series.tutorials (TutorialData.series r))) = mset (filter has_series ts)"
proof -
  have "mset (concat (map Series.tutorials
            (map (\<lambda>k. series_of k (series_members k ts)) (series_names ts))))
      = mset (filter has_series ts)"
    using mset_concat_members [OF distinct_series_names, of effective_order ts ts]
    by (simp add: comp_def series_of_simps filter_in_series_names)
  then show ?thesis
    by (simp add: getOrganizedTutorials_closed)
qed

theorem organize_partitions_input_witness:
  "\<exists>r. getOrganizedTutorials example_tutorials = Inr r
     \<and> TutorialData.standalone r = [sdl3_intro, docker_basics]
     \<and> concat (map Series.tutorials (TutorialData.series r))
         = [rust_index, rust_installation, rust_ownership]
     \<and> mset (TutorialData.standalone r) = mset (filter (\<lambda>t. \<not> has_series t) example_tutorials)
     \<and> mset (concat (map Series.tutorials (TutorialData.series r)))
         = mset (filter has_series example_tutorials)"
  using organize_partitions_input [of example_tutorials]
  unfolding example_organized by auto

text \<open>
  C2. For every tutorial list, the \<open>series\<close> list of the organizer's result has one
  Series for each distinct non-empty \<open>series\<close> value of the input and no other, in the
  order in which these values are first met in the input. The \<open>tutorials\<close> of each Series
  are the input tutorials of that series, sorted non-decreasing by \<open>seriesOrder\<close> with a
  missing one counted as 0; members of equal order keep their input order (for every
  order \<open>n\<close>, the members of order \<open>n\<close> stand as they do in the input).
\<close>

theorem series_in_first_seen_order_and_sorted:
  "\<exists>r. getOrganizedTutorials ts = Inr r
     \<and> map Series.slug (TutorialData.series r) = series_names ts
     \<and> distinct (map Series.slug (TutorialData.series r))
     \<and> set (map Series.slug (TutorialData.series r))
         = {s. s \<noteq> [] \<and> (\<exists>t\<in>set ts. tutorial_data.series (Tutorial.data t) = Some s)}
     \<and> (\<forall>S\<in>set (TutorialData.series r).
           sorted (map effective_order (Series.tutorials S))
           \<and> mset (Series.tutorials S) = mset (series_members (Series.slug S) ts)
           \<and> (\<forall>n. filter (\<lambda>t. effective_order t = n) (Series.tutorials S)
                    = filter (\<lambda>t. effective_order t = n) (series_members (Series.slug S) ts)))"
proof -
  obtain r where r: "getOrganizedTutorials ts = Inr r"
    by (simp add: getOrganizedTutorials_closed)
  have slugs: "map Series.slug (TutorialData.series r) = series_names ts"
    using r by (auto simp: getOrganizedTutorials_closed comp_def series_of_simps)
  have members: "sorted (map effective_order (Series.tutorials S))
      \<and> mset (Series.tutorials S) = mset (series_members (Series.slug S) ts)
      \<and> (\<forall>n. filter (\<lambda>t. effective_order t = n) (Series.tutorials S)
               = filter (\<lambda>t. effective_order t = n) (series_members (Series.slug S) ts))"
    if "S \<in> set (TutorialData.series r)" for S
  proof -
    from organized_series_member [OF r that]
    have "Series.tutorials S = sort_key effective_order (series_members (Series.slug S) ts)"
      by (metis series_of_simps(2))
    then show ?thesis
      by (simp add: sort_key_stable)
  qed
  have dist: "distinct (map Series.slug (TutorialData.series r))"
    by (simp only: slugs distinct_series_names)
  have names: "set (map Series.slug (TutorialData.series r))
      = {s. s \<noteq> [] \<and> (\<exists>t\<in>set ts. tutorial_data.series (Tutorial.data t) = Some s)}"
    by (simp only: slugs set_series_names)
  from r slugs dist names members show ?thesis
    by blast
qed

theorem series_in_first_seen_order_and_sorted_witness:
  "\<exists>r S. getOrganizedTutorials example_tutorials = Inr r
     \<and> S \<in> set (TutorialData.series r)
     \<and> map Series.slug (TutorialData.series r) = [''rust-basics'']
     \<and> Series.tutorials S = [rust_index, rust_installation, rust_ownership]
     \<and> sorted (map effective_order (Series.tutorials S))
     \<and> mset (Series.tutorials S) = mset (series_members (Series.slug S) example_tutorials)"
proof -
  from series_in_first_seen_order_and_sorted [of example_tutorials]
  obtain r where r: "getOrganizedTutorials example_tutorials = Inr r"
    and each: "\<forall>S\<in>set (TutorialData.series r).
       sorted (map effective_order (Series.tutorials S))
       \<and> mset (Series.tutorials S) = mset (series_members (Series.slug S) example_tutorials)
       \<and> (\<forall>n. filter (\<lambda>t. effective_order t = n) (Series.tutorials S)
                = filter (\<lambda>t. effective_order t = n)
                    (series_members (Series.slug S) example_tutorials))"
    by blast
  define S where "S = hd (TutorialData.series r)"
  have S: "S \<in> set (TutorialData.series r)"
    and tut: "Series.tutorials S = [rust_index, rust_installation, rust_ownership]"
    and slugs: "map Series.slug (TutorialData.series r) = [''rust-basics'']"
    by (simp_all add: S_def example_series [OF r])
  from each S have "sorted (map effective_order (Series.tutorials S))
       \<and> mset (Series.tutorials S) = mset (series_members (Series.slug S) example_tutorials)"
    by blast
  with r S tut slugs show ?thesis
    by (intro exI [of _ r] exI [of _ S]) simp
qed

text \<open>
  C6. For every tutorial list, the \<open>standalone\<close> list of the organizer's result holds the
  tutorials without a series, sorted descending by effective date (\<open>dateUpdated\<close> if
  present, else \<open>dateCreated\<close>); tutorials of equal effective date keep their input order
  (for every date \<open>d\<close>, the tutorials of date \<open>d\<close> stand as they do in the input).
\<close>

theorem standalone_newest_first_stable:
  "\<exists>r. getOrganizedTutorials ts = Inr r
     \<and> sorted_wrt (\<lambda>a b. effective_date b \<le> effective_date a) (TutorialData.standalone r)
     \<and> mset (TutorialData.standalone r) = mset (filter (\<lambda>t. \<not> has_series t) ts)
     \<and> (\<forall>d. filter (\<lambda>t. effective_date t = d) (TutorialData.standalone r)
              = filter (\<lambda>t. effective_date t = d) (filter (\<lambda>t. \<not> has_series t) ts))"
proof -
  let ?xs = "filter (\<lambda>t. \<not> has_series t) ts"
  let ?s = "sort_key (\<lambda>t. - effective_date t) ?xs"
  have "sorted (map (\<lambda>t. - effective_date t) ?s)"
    by (rule sorted_sort_key)
  then have sorted: "sorted_wrt (\<lambda>a b. effective_date b \<le> effective_date a) ?s"
    by (simp add: sorted_map)
  have "filter (\<lambda>t. - effective_date t = - d) ?s = filter (\<lambda>t. - effective_date t = - d) ?xs"
    for d
    by (rule sort_key_stable)
  then have stable: "filter (\<lambda>t. effective_date t = d) ?s = filter (\<lambda>t. effective_date t = d) ?xs"
    for d
    by simp
  from sorted stable show ?thesis
    by (simp add: getOrganizedTutorials_closed)
qed

theorem standalone_newest_first_stable_witness:
  "\<exists>r. getOrganizedTutorials example_tutorials = Inr r
     \<and> TutorialData.standalone r = [sdl3_intro, docker_basics]
     \<and> sorted_wrt (\<lambda>a b. effective_date b \<le> effective_date a) (TutorialData.standalone r)"
  using standalone_newest_first_stable [of example_tutorials]
  unfolding example_organized by auto

lemma unordered_parts_series:
  assumes "getOrganizedTutorials [rust_ownership, rust_installation] = Inr r"
  shows "TutorialData.series r =
     [\<lparr> Series.slug = ''rust-basics'',
        Series.title = ''Installing Rust'',
        Series.description = ''Set up your Rust development environment'',
        Series.tutorials = [rust_installation, rust_ownership],
        Series.category = ''programming'',
        Series.difficulty = intermediate,
        Series.totalTime = None \<rparr>]"
proof -
  have "getOrganizedTutorials [rust_ownership, rust_installation] =
     Inr \<lparr> TutorialData.standalone = [],
           TutorialData.series =
             [\<lparr> Series.slug = ''rust-basics'',
                Series.title = ''Installing Rust'',
                Series.description = ''Set up your Rust development environment'',
                Series.tutorials = [rust_installation, rust_ownership],
                Series.category = ''programming'',
                Series.difficulty = intermediate,
                Series.totalTime = None \<rparr>],
           TutorialData.categories = [''programming''],
           TutorialData.tags = [''memory'', ''ownership'', ''rust'', ''setup''] \<rparr>"
    by code_simp
  with assms show ?thesis by auto
qed

text \<open>
  C7. For every Series the organizer produces, the \<open>tutorials\<close> list is the members of
  the series after sorting (by \<open>seriesOrder\<close>, missing counted as 0, equal orders in input
  order), and \<open>title\<close>, \<open>description\<close> and \<open>category\<close> are those of the index tutorial of
  that sorted list: the first member whose \<open>seriesOrder\<close> is exactly 0, or the first member
  if there is none. The list is not empty, the index tutorial is one of its members, and
  the list still holds every input tutorial of the series.
\<close>

theorem series_header_from_index_tutorial:
  "\<exists>r. getOrganizedTutorials ts = Inr r
     \<and> (\<forall>S\<in>set (TutorialData.series r).
           Series.tutorials S
             = sort_key effective_order (series_members (Series.slug S) ts)
           \<and> sorted (map effective_order (Series.tutorials S))
           \<and> (\<forall>n. filter (\<lambda>t. effective_order t = n) (Series.tutorials S)
                    = filter (\<lambda>t. effective_order t = n) (series_members (Series.slug S) ts))
           \<and> Series.tutorials S \<noteq> []
           \<and> Series.title S
               = tutorial_data.title (Tutorial.data (index_tutorial (Series.tutorials S)))
           \<and> Series.description S
               = tutorial_data.description (Tutorial.data (index_tutorial (Series.tutorials S)))
           \<and> Series.category S
               = tutorial_data.category (Tutorial.data (index_tutorial (Series.tutorials S)))
           \<and> index_tutorial (Series.tutorials S) \<in> set (Series.tutorials S)
           \<and> mset (Series.tutorials S) = mset (series_members (Series.slug S) ts))"
proof -
  obtain r where r: "getOrganizedTutorials ts = Inr r"
    by (simp add: getOrganizedTutorials_closed)
  have "Series.tutorials S
          = sort_key effective_order (series_members (Series.slug S) ts)
      \<and> sorted (map effective_order (Series.tutorials S))
      \<and> (\<forall>n. filter (\<lambda>t. effective_order t = n) (Series.tutorials S)
               = filter (\<lambda>t. effective_order t = n) (series_members (Series.slug S) ts))
      \<and> Series.tutorials S \<noteq> []
      \<and> Series.title S
          = tutorial_data.title (Tutorial.data (index_tutorial (Series.tutorials S)))
      \<and> Series.description S
          = tutorial_data.description (Tutorial.data (index_tutorial (Series.tutorials S)))
      \<and> Series.category S
          = tutorial_data.category (Tutorial.data (index_tutorial (Series.tutorials S)))
      \<and> index_tutorial (Series.tutorials S) \<in> set (Series.tutorials S)
      \<and> mset (Series.tutorials S) = mset (series_members (Series.slug S) ts)"
    if "S \<in> set (TutorialData.series r)" for S
  proof -
    let ?k = "Series.slug S"
    from organized_series_member [OF r that]
    have k: "?k \<in> set (series_names ts)"
      and S: "S = series_of ?k (series_members ?k ts)"
      by simp_all
    have tut: "Series.tutorials S = sort_key effective_order (series_members ?k ts)"
      by (subst S) (simp add: series_of_simps)
    have ne: "Series.tutorials S \<noteq> []"
      unfolding tut using k by (intro sort_key_nonempty series_members_nonempty)
    have sorted: "sorted (map effective_order (Series.tutorials S))"
      unfolding tut by (rule sorted_sort_key)
    have stable: "\<forall>n. filter (\<lambda>t. effective_order t = n) (Series.tutorials S)
               = filter (\<lambda>t. effective_order t = n) (series_members ?k ts)"
      unfolding tut by (simp add: sort_key_stable)
    have "Series.title S
          = tutorial_data.title (Tutorial.data (index_tutorial (Series.tutorials S)))"
      unfolding tut by (subst S) (simp add: series_of_simps)
    moreover have "Series.description S
          = tutorial_data.description (Tutorial.data (index_tutorial (Series.tutorials S)))"
      unfolding tut by (subst S) (simp add: series_of_simps)
    moreover have "Series.category S
          = tutorial_data.category (Tutorial.data (index_tutorial (Series.tutorials S)))"
      unfolding tut by (subst S) (simp add: series_of_simps)
    moreover have "mset (Series.tutorials S) = mset (series_members ?k ts)"
      by (simp add: tut)
    ultimately show ?thesis
      using tut sorted stable ne index_tutorial_member [OF ne] by blast
  qed
  with r show ?thesis by blast
qed

theorem series_header_from_index_tutorial_witness:
  "(\<exists>r S. getOrganizedTutorials example_tutorials = Inr r
      \<and> S \<in> set (TutorialData.series r)
      \<and> Series.tutorials S = [rust_index, rust_installation, rust_ownership]
      \<and> index_tutorial (Series.tutorials S) = rust_index
      \<and> Series.title S = ''Rust Programming Basics''
      \<and> Series.title S
          = tutorial_data.title (Tutorial.data (index_tutorial (Series.tutorials S)))
      \<and> index_tutorial (Series.tutorials S) \<in> set (Series.tutorials S))
   \<and> (\<exists>r S. getOrganizedTutorials [rust_ownership, rust_installation] = Inr r
      \<and> S \<in> set (TutorialData.series r)
      \<and> series_members (Series.slug S) [rust_ownership, rust_installation]
          = [rust_ownership, rust_installation]
      \<and> Series.tutorials S = [rust_installation, rust_ownership]
      \<and> sorted (map effective_order (Series.tutorials S))
      \<and> index_tutorial (Series.tutorials S) = rust_installation
      \<and> Series.title S = ''Installing Rust''
      \<and> Series.title S
          = tutorial_data.title (Tutorial.data (index_tutorial (Series.tutorials S))))"
proof (rule conjI)
  from series_header_from_index_tutorial [of example_tutorials]
  obtain r where r: "getOrganizedTutorials example_tutorials = Inr r"
    and each: "\<forall>S\<in>set (TutorialData.series r).
       Series.title S
           = tutorial_data.title (Tutorial.data (index_tutorial (Series.tutorials S)))
       \<and> index_tutorial (Series.tutorials S) \<in> set (Series.tutorials S)"
    by blast
  define S where "S = hd (TutorialData.series r)"
  have S: "S \<in> set (TutorialData.series r)"
    and title: "Series.title S = ''Rust Programming Basics''"
    and tut: "Series.tutorials S = [rust_index, rust_installation, rust_ownership]"
    by (simp_all add: S_def example_series [OF r])
  have idx: "index_tutorial (Series.tutorials S) = rust_index"
    unfolding tut by (simp add: index_tutorial_def rust_index_def)
  from each S have "Series.title S
         = tutorial_data.title (Tutorial.data (index_tutorial (Series.tutorials S)))
       \<and> index_tutorial (Series.tutorials S) \<in> set (Series.tutorials S)"
    by blast
  with r S title tut idx
  show "\<exists>r S. getOrganizedTutorials example_tutorials = Inr r
      \<and> S \<in> set (TutorialData.series r)
      \<and> Series.tutorials S = [rust_index, rust_installation, rust_ownership]
      \<and> index_tutorial (Series.tutorials S) = rust_index
      \<and> Series.title S = ''Rust Programming Basics''
      \<and> Series.title S
          = tutorial_data.title (Tutorial.data (index_tutorial (Series.tutorials S)))
      \<and> index_tutorial (Series.tutorials S) \<in> set (Series.tutorials S)"
    by (intro exI [of _ r] exI [of _ S]) simp
next
  from series_header_from_index_tutorial [of "[rust_ownership, rust_installation]"]
  obtain r where r: "getOrganizedTutorials [rust_ownership, rust_installation] = Inr r"
    and each: "\<forall>S\<in>set (TutorialData.series r).
       sorted (map effective_order (Series.tutorials S))
       \<and> Series.title S
           = tutorial_data.title (Tutorial.data (index_tutorial (Series.tutorials S)))"
    by blast
  define S where "S = hd (TutorialData.series r)"
  have S: "S \<in> set (TutorialData.series r)"
    and slug: "Series.slug S = ''rust-basics''"
    and title: "Series.title S = ''Installing Rust''"
    and tut: "Series.tutorials S = [rust_installation, rust_ownership]"
    by (simp_all add: S_def unordered_parts_series [OF r])
  have members: "series_members (Series.slug S) [rust_ownership, rust_installation]
      = [rust_ownership, rust_installation]"
    unfolding slug by (simp add: series_members_def rust_ownership_def rust_installation_def)
  have idx: "index_tutorial (Series.tutorials S) = rust_installation"
    unfolding tut by (simp add: index_tutorial_def rust_installation_def rust_ownership_def)
  from each S have "sorted (map effective_order (Series.tutorials S))
       \<and> Series.title S
           = tutorial_data.title (Tutorial.data (index_tutorial (Series.tutorials S)))"
    by blast
  with r S members title tut idx
  show "\<exists>r S. getOrganizedTutorials [rust_ownership, rust_installation] = Inr r
      \<and> S \<in> set (TutorialData.series r)
      \<and> series_members (Series.slug S) [rust_ownership, rust_installation]
          = [rust_ownership, rust_installation]
      \<and> Series.tutorials S = [rust_installation, rust_ownership]
      \<and> sorted (map effective_order (Series.tutorials S))
      \<and> index_tutorial (Series.tutorials S) = rust_installation
      \<and> Series.title S = ''Installing Rust''
      \<and> Series.title S
          = tutorial_data.title (Tutorial.data (index_tutorial (Series.tutorials S)))"
    by (intro exI [of _ r] exI [of _ S]) simp
qed

text \<open>
  C8. For every Series the organizer produces, \<open>difficulty\<close> is the maximum of its
  members' difficulties under beginner < intermediate < advanced: it is the fold of the
  maximum over the members starting from beginner, some member has it, and no member has
  a higher one.
\<close>

theorem series_difficulty_is_maximum:
  "\<exists>r. getOrganizedTutorials ts = Inr r
     \<and> (\<forall>S\<in>set (TutorialData.series r).
           Series.difficulty S
             = foldl max_difficulty beginner
                 (map (\<lambda>t. tutorial_data.difficulty (Tutorial.data t)) (Series.tutorials S))
           \<and> (\<exists>t\<in>set (Series.tutorials S).
                 tutorial_data.difficulty (Tutorial.data t) = Series.difficulty S)
           \<and> (\<forall>t\<in>set (Series.tutorials S).
                 difficulty_rank (tutorial_data.difficulty (Tutorial.data t))
                 \<le> difficulty_rank (Series.difficulty S)))"
proof -
  obtain r where r: "getOrganizedTutorials ts = Inr r"
    by (simp add: getOrganizedTutorials_closed)
  have "Series.difficulty S
          = foldl max_difficulty beginner
              (map (\<lambda>t. tutorial_data.difficulty (Tutorial.data t)) (Series.tutorials S))
      \<and> (\<exists>t\<in>set (Series.tutorials S).
            tutorial_data.difficulty (Tutorial.data t) = Series.difficulty S)
      \<and> (\<forall>t\<in>set (Series.tutorials S).
            difficulty_rank (tutorial_data.difficulty (Tutorial.data t))
            \<le> difficulty_rank (Series.difficulty S))"
    if "S \<in> set (TutorialData.series r)" for S
  proof -
    let ?k = "Series.slug S"
    let ?ds = "map (\<lambda>t. tutorial_data.difficulty (Tutorial.data t)) (Series.tutorials S)"
    from organized_series_member [OF r that]
    have k: "?k \<in> set (series_names ts)"
      and S: "S = series_of ?k (series_members ?k ts)"
      by simp_all
    have tut: "Series.tutorials S = sort_key effective_order (series_members ?k ts)"
      by (subst S) (simp add: series_of_simps)
    have ne: "Series.tutorials S \<noteq> []"
      unfolding tut using k by (intro sort_key_nonempty series_members_nonempty)
    have "Series.difficulty S = highestDifficulty (Series.tutorials S)"
      unfolding tut by (subst S) (simp add: series_of_simps)
    then have fold: "Series.difficulty S = foldl max_difficulty beginner ?ds"
      by (simp add: highestDifficulty_fold)
    have upper: "difficulty_rank d \<le> difficulty_rank (Series.difficulty S)" if "d \<in> set ?ds" for d
      unfolding fold using that by (rule foldl_max_ge)
    have "Series.difficulty S \<in> set ?ds"
    proof (rule ccontr)
      assume out: "Series.difficulty S \<notin> set ?ds"
      with foldl_max_attained [of beginner ?ds] fold have b: "Series.difficulty S = beginner"
        by auto
      from ne obtain d where d: "d \<in> set ?ds"
        by (cases "Series.tutorials S") auto
      with upper b have "difficulty_rank d = 0"
        by fastforce
      then have "d = beginner"
        by (cases d) simp_all
      with d b out show False by simp
    qed
    with fold upper show ?thesis
      by auto
  qed
  with r show ?thesis by blast
qed

theorem series_difficulty_is_maximum_witness:
  "\<exists>r S. getOrganizedTutorials example_tutorials = Inr r
     \<and> S \<in> set (TutorialData.series r)
     \<and> Series.difficulty S = intermediate
     \<and> (\<exists>t\<in>set (Series.tutorials S).
           tutorial_data.difficulty (Tutorial.data t) = Series.difficulty S)
     \<and> difficulty_rank (tutorial_data.difficulty (Tutorial.data rust_index))
         \<le> difficulty_rank (Series.difficulty S)"
proof -
  from series_difficulty_is_maximum [of example_tutorials]
  obtain r where r: "getOrganizedTutorials example_tutorials = Inr r"
    and each: "\<forall>S\<in>set (TutorialData.series r).
       Series.difficulty S
         = foldl max_difficulty beginner
             (map (\<lambda>t. tutorial_data.difficulty (Tutorial.data t)) (Series.tutorials S))
       \<and> (\<exists>t\<in>set (Series.tutorials S).
             tutorial_data.difficulty (Tutorial.data t) = Series.difficulty S)
       \<and> (\<forall>t\<in>set (Series.tutorials S).
             difficulty_rank (tutorial_data.difficulty (Tutorial.data t))
             \<le> difficulty_rank (Series.difficulty S))"
    by blast
  define S where "S = hd (TutorialData.series r)"
  have S: "S \<in> set (TutorialData.series r)"
    and d: "Series.difficulty S = intermediate"
    and m: "rust_index \<in> set (Series.tutorials S)"
    by (simp_all add: S_def example_series [OF r])
  from each S m have "(\<exists>t\<in>set (Series.tutorials S).
           tutorial_data.difficulty (Tutorial.data t) = Series.difficulty S)
     \<and> difficulty_rank (tutorial_data.difficulty (Tutorial.data rust_index))
         \<le> difficulty_rank (Series.difficulty S)"
    by blast
  with r S d show ?thesis
    by (intro exI [of _ r] exI [of _ S]) simp
qed

text \<open>
  C9. For every tutorial list, \<open>categories\<close> is sorted ascending, has no duplicate, and
  holds exactly the \<open>category\<close> values of all input tutorials; \<open>tags\<close> is sorted
  ascending, has no duplicate, and holds exactly the tags of all input tutorials. Both
  range over the whole input, so a category or tag that only a series member carries is
  in the result.
\<close>

theorem categories_and_tags_over_all_tutorials:
  "\<exists>r. getOrganizedTutorials ts = Inr r
     \<and> sorted (TutorialData.categories r) \<and> distinct (TutorialData.categories r)
     \<and> set (TutorialData.categories r) = (\<lambda>t. tutorial_data.category (Tutorial.data t)) ` set ts
     \<and> sorted (TutorialData.tags r) \<and> distinct (TutorialData.tags r)
     \<and> set (TutorialData.tags r) = (\<Union>t\<in>set ts. set (tutorial_data.tags (Tutorial.data t)))"
  by (simp add: getOrganizedTutorials_closed)

theorem categories_and_tags_over_all_tutorials_witness:
  "\<exists>r. getOrganizedTutorials example_tutorials = Inr r
     \<and> TutorialData.categories r = [''devops'', ''programming'']
     \<and> sorted (TutorialData.categories r) \<and> distinct (TutorialData.categories r)
     \<and> set (TutorialData.categories r)
         = (\<lambda>t. tutorial_data.category (Tutorial.data t)) ` set example_tutorials"
  using categories_and_tags_over_all_tutorials [of example_tutorials]
  unfolding example_organized by auto

section \<open>Properties of the navigator\<close>

lemma findIndex_none: "\<forall>x\<in>set xs. \<not> P x \<Longrightarrow> findIndex P xs = - 1"
  by (induction xs) simp_all

lemma findIndex_first:
  "i < length xs \<Longrightarrow> P (xs ! i) \<Longrightarrow> \<forall>j<i. \<not> P (xs ! j) \<Longrightarrow> findIndex P xs = int i"
proof (induction xs arbitrary: i)
  case Nil
  then show ?case by simp
next
  case (Cons x xs)
  show ?case
  proof (cases i)
    case 0
    with Cons.prems show ?thesis by simp
  next
    case (Suc i')
    with Cons.prems have "\<not> P x" by auto
    moreover from Suc Cons.prems have "findIndex P xs = int i'"
      by (intro Cons.IH) auto
    ultimately show ?thesis
      using Suc by (simp add: Let_def)
  qed
qed

lemma getSeriesTutorials_sorted_members:
  "getSeriesTutorials k all = sort_key effective_order (series_members k all)"
  by (simp add: getSeriesTutorials_def sort_seriesOrder series_members_def)

lemma getSeriesNavigation_in_series:
  assumes "tutorial_data.series (Tutorial.data t) = Some k" and "k \<noteq> []"
  shows "getSeriesNavigation t all =
     (let s = getSeriesTutorials k all;
          c = findIndex (\<lambda>x. Tutorial.slug x = Tutorial.slug t) s
      in Some \<lparr> SeriesNavigation.series = s,
                SeriesNavigation.current = c,
                SeriesNavigation.prev = (if c > 0 then js_at s (c - 1) else None),
                SeriesNavigation.next =
                  (if c < int (length s) - 1 then js_at s (c + 1) else None) \<rparr>)"
  using assms by (simp add: getSeriesNavigation_def Let_def)

lemma getSeriesNavigation_None:
  "(getSeriesNavigation t all = None) = (\<not> has_series t)"
  by (simp add: getSeriesNavigation_def has_series_def Let_def split: option.splits)

lemma findIndex_bounds: "- 1 \<le> findIndex P xs \<and> findIndex P xs < int (length xs)"
  by (induction xs) (auto simp: Let_def)

lemma navigation_reads_inside_array:
  assumes "getSeriesNavigation t all = Some nav"
  shows "(SeriesNavigation.prev nav = None) = (SeriesNavigation.current nav \<le> 0)
       \<and> (SeriesNavigation.next nav = None)
           = (int (length (SeriesNavigation.series nav)) - 1 \<le> SeriesNavigation.current nav)"
proof -
  from assms have "has_series t"
    using getSeriesNavigation_None [of t all] by auto
  then obtain k where k: "tutorial_data.series (Tutorial.data t) = Some k" "k \<noteq> []"
    by (auto simp: has_series_iff)
  let ?s = "getSeriesTutorials k all"
  let ?c = "findIndex (\<lambda>x. Tutorial.slug x = Tutorial.slug t) ?s"
  from findIndex_bounds [of "\<lambda>x. Tutorial.slug x = Tutorial.slug t" ?s]
  have b: "- 1 \<le> ?c" "?c < int (length ?s)"
    by simp_all
  from assms have nav: "nav =
      \<lparr> SeriesNavigation.series = ?s,
        SeriesNavigation.current = ?c,
        SeriesNavigation.prev = (if ?c > 0 then js_at ?s (?c - 1) else None),
        SeriesNavigation.next = (if ?c < int (length ?s) - 1 then js_at ?s (?c + 1) else None) \<rparr>"
    unfolding getSeriesNavigation_in_series [OF k] Let_def by simp
  have fields: "SeriesNavigation.series nav = ?s" "SeriesNavigation.current nav = ?c"
    "SeriesNavigation.prev nav = (if ?c > 0 then js_at ?s (?c - 1) else None)"
    "SeriesNavigation.next nav = (if ?c < int (length ?s) - 1 then js_at ?s (?c + 1) else None)"
    by (simp_all add: nav)
  show ?thesis
    unfolding fields using b by (auto simp: js_at_def)
qed

lemma navigation_found:
  assumes "tutorial_data.series (Tutorial.data t) = Some k" and "k \<noteq> []"
    and "s = getSeriesTutorials k all"
    and "i < length s" and "Tutorial.slug (s ! i) = Tutorial.slug t"
    and "\<forall>j<i. Tutorial.slug (s ! j) \<noteq> Tutorial.slug t"
  shows "getSeriesNavigation t all =
     Some \<lparr> SeriesNavigation.series = s,
            SeriesNavigation.current = int i,
            SeriesNavigation.prev = (if i = 0 then None else Some (s ! (i - 1))),
            SeriesNavigation.next = (if i = length s - 1 then None else Some (s ! (i + 1))) \<rparr>"
proof -
  have c: "findIndex (\<lambda>x. Tutorial.slug x = Tutorial.slug t) s = int i"
    using assms(4-6) by (intro findIndex_first) auto
  have prev: "(if int i > 0 then js_at s (int i - 1) else None)
      = (if i = 0 then None else Some (s ! (i - 1)))"
    using assms(4) by (auto simp: js_at_def nat_diff_distrib')
  have "nat (int i + 1) = i + 1"
    by simp
  then have "next": "(if int i < int (length s) - 1 then js_at s (int i + 1) else None)
      = (if i = length s - 1 then None else Some (s ! (i + 1)))"
    using assms(4) by (auto simp: js_at_def)
  show ?thesis
    unfolding getSeriesNavigation_in_series [OF assms(1,2)] assms(3) [symmetric] Let_def c
    by (simp only: prev "next")
qed

lemma navigation_not_found:
  assumes "tutorial_data.series (Tutorial.data t) = Some k" and "k \<noteq> []"
    and "Tutorial.slug t \<notin> Tutorial.slug ` set (series_members k all)"
  shows "getSeriesNavigation t all =
     Some \<lparr> SeriesNavigation.series = getSeriesTutorials k all,
            SeriesNavigation.current = - 1,
            SeriesNavigation.prev = None,
            SeriesNavigation.next =
              (if series_members k all = [] then None
               else Some (hd (getSeriesTutorials k all))) \<rparr>"
proof -
  let ?s = "getSeriesTutorials k all"
  have "set ?s = set (series_members k all)"
    by (simp add: getSeriesTutorials_sorted_members)
  with assms(3) have "\<forall>x\<in>set ?s. Tutorial.slug x \<noteq> Tutorial.slug t"
    by (metis imageI)
  then have c: "findIndex (\<lambda>x. Tutorial.slug x = Tutorial.slug t) ?s = - 1"
    by (rule findIndex_none)
  have len: "length ?s = length (series_members k all)"
    by (simp add: getSeriesTutorials_sorted_members)
  have "next": "(if (- 1 :: int) < int (length ?s) - 1 then js_at ?s (- 1 + 1) else None)
      = (if series_members k all = [] then None else Some (hd ?s))"
  proof (cases "series_members k all = []")
    case True
    then show ?thesis by (simp add: len)
  next
    case False
    then have "?s \<noteq> []" using len by auto
    with False show ?thesis
      by (simp add: js_at_def hd_conv_nth len)
  qed
  show ?thesis
    unfolding getSeriesNavigation_in_series [OF assms(1,2)] Let_def c
    using "next" by simp
qed

lemma organizer_members_are_getSeriesTutorials:
  "\<exists>r. getOrganizedTutorials all = Inr r
     \<and> (\<forall>S\<in>set (TutorialData.series r).
           Series.tutorials S = getSeriesTutorials (Series.slug S) all)"
proof -
  obtain r where r: "getOrganizedTutorials all = Inr r"
    by (simp add: getOrganizedTutorials_closed)
  have "Series.tutorials S = getSeriesTutorials (Series.slug S) all"
    if "S \<in> set (TutorialData.series r)" for S
    using organized_series_member [OF r that]
    by (metis series_of_simps(2) getSeriesTutorials_sorted_members)
  with r show ?thesis by blast
qed

lemma example_rust_series:
  "sort_key effective_order (series_members ''rust-basics'' example_tutorials)
     = [rust_index, rust_installation, rust_ownership]"
  by code_simp

lemma example_slugs_distinct: "distinct (map Tutorial.slug example_tutorials)"
  by code_simp

lemma example_published:
  "getPublishedTutorials True (example_tutorials @ [rust_error_handling]) = example_tutorials"
  by code_simp

lemma first_slug_if_distinct:
  assumes "distinct (map Tutorial.slug all)"
    and "i < length (getSeriesTutorials k all)"
    and "j < i"
  shows "Tutorial.slug (getSeriesTutorials k all ! j) \<noteq> Tutorial.slug (getSeriesTutorials k all ! i)"
proof -
  let ?s = "getSeriesTutorials k all"
  have "distinct (map Tutorial.slug (series_members k all))"
    using assms(1) by (simp add: series_members_def distinct_map_filter)
  moreover have "mset (map Tutorial.slug ?s) = mset (map Tutorial.slug (series_members k all))"
    by (simp add: getSeriesTutorials_sorted_members)
  ultimately have "distinct (map Tutorial.slug ?s)"
    by (metis mset_eq_imp_distinct_iff)
  with assms(2,3) show ?thesis
    by (auto simp: distinct_conv_nth)
qed

text \<open>
  C3. The navigator returns null exactly when the tutorial's \<open>series\<close> field is absent
  or empty. Otherwise let \<open>s\<close> be the members of its series in \<open>allTutorials\<close>, sorted by
  \<open>seriesOrder\<close> (missing counted as 0, equal orders in input order), and let the
  tutorial's slug stand at position \<open>i\<close> of \<open>s\<close>, where the slugs of \<open>allTutorials\<close> are
  unique, as the data model has it, or else \<open>i\<close> is the first such position. Then the
  navigator returns \<open>series = s\<close>, \<open>current = i\<close>, \<open>prev\<close> null if \<open>i = 0\<close> and else the
  member at \<open>i - 1\<close>, \<open>next\<close> null if \<open>i\<close> is the last position and else the member at
  \<open>i + 1\<close>. The sorted list is the one the organizer puts into the Series of that name.
\<close>

theorem navigation_at_position:
  fixes t :: Tutorial and "all" :: "Tutorial list" and k :: string and i :: nat
  defines "s \<equiv> sort_key effective_order (series_members k all)"
  shows "(getSeriesNavigation t all = None) = (\<not> has_series t)
     \<and> (tutorial_data.series (Tutorial.data t) = Some k \<and> k \<noteq> []
          \<and> i < length s \<and> Tutorial.slug (s ! i) = Tutorial.slug t
          \<and> (distinct (map Tutorial.slug all)
              \<or> (\<forall>j<i. Tutorial.slug (s ! j) \<noteq> Tutorial.slug t))
        \<longrightarrow> getSeriesNavigation t all =
              Some \<lparr> SeriesNavigation.series = s,
                     SeriesNavigation.current = int i,
                     SeriesNavigation.prev = (if i = 0 then None else Some (s ! (i - 1))),
                     SeriesNavigation.next =
                       (if i = length s - 1 then None else Some (s ! (i + 1))) \<rparr>)
     \<and> (\<exists>r. getOrganizedTutorials all = Inr r
            \<and> (\<forall>S\<in>set (TutorialData.series r).
                  Series.tutorials S = getSeriesTutorials (Series.slug S) all
                  \<and> getSeriesTutorials (Series.slug S) all
                      = sort_key effective_order (series_members (Series.slug S) all)))"
proof (intro conjI impI)
  show "(getSeriesNavigation t all = None) = (\<not> has_series t)"
    by (rule getSeriesNavigation_None)
next
  assume a: "tutorial_data.series (Tutorial.data t) = Some k \<and> k \<noteq> []
          \<and> i < length s \<and> Tutorial.slug (s ! i) = Tutorial.slug t
          \<and> (distinct (map Tutorial.slug all)
              \<or> (\<forall>j<i. Tutorial.slug (s ! j) \<noteq> Tutorial.slug t))"
  have s: "s = getSeriesTutorials k all"
    by (simp add: s_def getSeriesTutorials_sorted_members)
  have first: "\<forall>j<i. Tutorial.slug (s ! j) \<noteq> Tutorial.slug t"
  proof (cases "distinct (map Tutorial.slug all)")
    case True
    with a show ?thesis
      unfolding s using first_slug_if_distinct [of all i k] by metis
  next
    case False
    with a show ?thesis by blast
  qed
  with a show "getSeriesNavigation t all =
      Some \<lparr> SeriesNavigation.series = s,
             SeriesNavigation.current = int i,
             SeriesNavigation.prev = (if i = 0 then None else Some (s ! (i - 1))),
             SeriesNavigation.next =
               (if i = length s - 1 then None else Some (s ! (i + 1))) \<rparr>"
    by (intro navigation_found [OF _ _ s]) simp_all
next
  from organizer_members_are_getSeriesTutorials [of all]
  show "\<exists>r. getOrganizedTutorials all = Inr r
            \<and> (\<forall>S\<in>set (TutorialData.series r).
                  Series.tutorials S = getSeriesTutorials (Series.slug S) all
                  \<and> getSeriesTutorials (Series.slug S) all
                      = sort_key effective_order (series_members (Series.slug S) all))"
    by (simp add: getSeriesTutorials_sorted_members)
qed

theorem navigation_at_position_witness:
  "getSeriesNavigation rust_installation example_tutorials =
     Some \<lparr> SeriesNavigation.series = [rust_index, rust_installation, rust_ownership],
            SeriesNavigation.current = 1,
            SeriesNavigation.prev = Some rust_index,
            SeriesNavigation.next = Some rust_ownership \<rparr>
   \<and> getSeriesNavigation docker_basics example_tutorials = None"
proof -
  have ser: "tutorial_data.series (Tutorial.data rust_installation) = Some ''rust-basics''"
    by (simp add: rust_installation_def)
  have "\<not> has_series docker_basics"
    by (simp add: has_series_def docker_basics_def)
  with navigation_at_position [of rust_installation example_tutorials "''rust-basics''" 1]
    navigation_at_position [of docker_basics example_tutorials "''rust-basics''" 0]
    example_slugs_distinct ser
  show ?thesis
    unfolding example_rust_series by simp
qed

text \<open>
  C10. For a tutorial with a non-empty \<open>series\<close> whose slug none of the members of that
  series in \<open>allTutorials\<close> carries, the navigator does not throw: it returns an object
  with the sorted members as \<open>series\<close>, \<open>current = -1\<close>, \<open>prev\<close> null, and as \<open>next\<close> the
  first of the sorted members, or null when the series has no member (and \<open>series\<close> is
  empty).
\<close>

theorem navigation_of_unlisted_tutorial:
  assumes "tutorial_data.series (Tutorial.data t) = Some k" and "k \<noteq> []"
    and "Tutorial.slug t \<notin> Tutorial.slug ` set (series_members k all)"
  shows "getSeriesNavigation t all =
     Some \<lparr> SeriesNavigation.series = sort_key effective_order (series_members k all),
            SeriesNavigation.current = - 1,
            SeriesNavigation.prev = None,
            SeriesNavigation.next =
              (if series_members k all = [] then None
               else Some (hd (sort_key effective_order (series_members k all)))) \<rparr>"
  using navigation_not_found [OF assms]
  by (simp only: getSeriesTutorials_sorted_members)

theorem navigation_of_unlisted_tutorial_witness:
  "getSeriesNavigation rust_error_handling [rust_ownership, docker_basics, rust_index] =
     Some \<lparr> SeriesNavigation.series = [rust_index, rust_ownership],
            SeriesNavigation.current = - 1,
            SeriesNavigation.prev = None,
            SeriesNavigation.next = Some rust_index \<rparr>
   \<and> getSeriesNavigation rust_error_handling [docker_basics] =
     Some \<lparr> SeriesNavigation.series = [],
            SeriesNavigation.current = - 1,
            SeriesNavigation.prev = None,
            SeriesNavigation.next = None \<rparr>"
proof -
  have ser: "tutorial_data.series (Tutorial.data rust_error_handling) = Some ''rust-basics''"
    by (simp add: rust_error_handling_def)
  have m1: "series_members ''rust-basics'' [rust_ownership, docker_basics, rust_index]
      = [rust_ownership, rust_index]"
    by (simp add: series_members_def rust_ownership_def docker_basics_def rust_index_def)
  have m2: "series_members ''rust-basics'' [docker_basics] = []"
    by (simp add: series_members_def docker_basics_def)
  have s1: "sort_key effective_order [rust_ownership, rust_index] = [rust_index, rust_ownership]"
    by (simp add: effective_order_def rust_ownership_def rust_index_def)
  have out: "Tutorial.slug rust_error_handling
      \<notin> Tutorial.slug ` set [rust_ownership, rust_index]"
    by (simp add: rust_error_handling_def rust_ownership_def rust_index_def)
  from navigation_of_unlisted_tutorial
         [of rust_error_handling "''rust-basics''" "[rust_ownership, docker_basics, rust_index]"]
    navigation_of_unlisted_tutorial [of rust_error_handling "''rust-basics''" "[docker_basics]"]
    ser out
  show ?thesis
    unfolding m1 m2 s1 by simp
qed

text \<open>
  C4, as the specification has it (the navigator fails with a NotFoundError for a
  tutorial that is not in \<open>allTutorials\<close>), does not hold: for the draft part of the
  series, which a production build leaves out of the published list
  (\<open>example_published\<close>), the navigator returns a navigation object.
\<close>

theorem navigation_raises_no_error_counterexample:
  "has_series rust_error_handling
   \<and> Tutorial.slug rust_error_handling \<notin> Tutorial.slug ` set example_tutorials
   \<and> getSeriesNavigation rust_error_handling example_tutorials =
       Some \<lparr> SeriesNavigation.series = [rust_index, rust_installation, rust_ownership],
              SeriesNavigation.current = - 1,
              SeriesNavigation.prev = None,
              SeriesNavigation.next = Some rust_index \<rparr>"
  by code_simp

text \<open>
  C4, amended. For a tutorial with a non-empty \<open>series\<close> whose slug no tutorial of
  \<open>allTutorials\<close> carries, the navigator raises no error: it returns a navigation object
  whose \<open>current\<close> is -1, the value of \<^verbatim>\<open>findIndex\<close> for "not found", and whose \<open>prev\<close>
  is null.
\<close>

theorem navigation_of_absent_tutorial:
  assumes "has_series t" and "Tutorial.slug t \<notin> Tutorial.slug ` set all"
  shows "\<exists>nav. getSeriesNavigation t all = Some nav
           \<and> SeriesNavigation.current nav = - 1
           \<and> SeriesNavigation.prev nav = None"
proof -
  from assms(1) obtain k where k: "tutorial_data.series (Tutorial.data t) = Some k" "k \<noteq> []"
    by (auto simp: has_series_iff)
  have "set (series_members k all) \<subseteq> set all"
    by (simp add: series_members_def)
  with assms(2) have "Tutorial.slug t \<notin> Tutorial.slug ` set (series_members k all)"
    by blast
  from navigation_not_found [OF k this] show ?thesis
    by simp
qed

theorem navigation_of_absent_tutorial_witness:
  "\<exists>nav. getSeriesNavigation rust_error_handling example_tutorials = Some nav
           \<and> SeriesNavigation.current nav = - 1
           \<and> SeriesNavigation.prev nav = None"
proof -
  have "has_series rust_error_handling"
    by (simp add: has_series_def rust_error_handling_def)
  moreover have "Tutorial.slug rust_error_handling \<notin> Tutorial.slug ` set example_tutorials"
    by code_simp
  ultimately show ?thesis
    by (rule navigation_of_absent_tutorial)
qed

section \<open>The organizer and required fields\<close>



lemma schema_error: "tutorials_schema fm = Inl e \<Longrightarrow> e = ValidationError"
  by (auto simp: tutorials_schema_def split: option.splits)

lemma load_files_error: "load_files files = Inl e \<Longrightarrow> e = ValidationError"
  by (induction files arbitrary: e) (auto split: sum.splits dest: schema_error)



lemma getPublishedTutorials_of_files_loaded:
  "load_files files = Inr entries \<Longrightarrow>
   getPublishedTutorials_of_files production files
     = Inr (getPublishedTutorials production entries)"
  by (simp add: getPublishedTutorials_of_files_def getCollection_def getPublishedTutorials_def)

lemma docker_basics_file_loaded:
  "load_files [docker_basics_file] = Inr [docker_basics]"
  by (simp add: docker_basics_file_def docker_basics_def tutorials_schema_def)



text \<open>
  The body of \<open>getOrganizedTutorials\<close> itself has no check of a field: on the entries the
  collection hands over it always returns a result.
\<close>

lemma organizer_body_never_raises: "\<exists>r. getOrganizedTutorials ts = Inr r"
  by (simp add: getOrganizedTutorials_closed)

end
